theory Spec2Isabelle
  imports Main "HOL-Library.Word"
begin

section \<open>The asynchronous WebSocket echo server of \<^verbatim>\<open>Sources/main.cpp\<close>\<close>

text \<open>
  The program is a chain of completion handlers. Each handler of the source is a function
  from the object's state (and the handler's arguments) to the new state and the list of
  effects the handler performs, in program order. An asynchronous operation that a
  handler starts is one of these effects; its completion is an event that the I/O library
  delivers later, and the handler bound to it runs then.
\<close>

subsection \<open>Error codes and \<^verbatim>\<open>fail\<close>\<close>

text \<open>
  \<^verbatim>\<open>beast::error_code\<close>: the source only tests a code for being set (\<^verbatim>\<open>if (ec)\<close>), compares
  it with \<^verbatim>\<open>websocket::error::closed\<close> and prints its message. \<open>Failure m\<close> is any other
  code, with message \<open>m\<close>.
\<close>

datatype error_code = Success | Ws_closed | Failure string

text \<open>\<^verbatim>\<open>if (ec)\<close>: the code is set.\<close>

definition is_set :: "error_code \<Rightarrow> bool" where
  "is_set ec = (ec \<noteq> Success)"

text \<open>\<^verbatim>\<open>ec.message()\<close>, with the library's texts for the two named codes.\<close>

fun message :: "error_code \<Rightarrow> string" where
  "message Success = ''Success''"
| "message Ws_closed = ''The WebSocket stream was gracefully closed at both endpoints''"
| "message (Failure m) = m"

type_synonym bytes = "8 word list"

text \<open>
  What the program does, in program order: the calls on a session's \<^verbatim>\<open>_ws\<close> and \<^verbatim>\<open>_buffer\<close>,
  the calls on the listener's \<^verbatim>\<open>_acceptor\<close>, what \<^verbatim>\<open>main\<close> starts, and the text written to
  \<^verbatim>\<open>std::cerr\<close>. \<open>Ws_async_write t b\<close> is a write of the bytes \<open>b\<close> as one message, framed
  as text when \<open>t\<close> holds and as binary otherwise (the stream's \<^verbatim>\<open>text()\<close> setting when the
  write is started). An endpoint is an address and a port.
\<close>

type_synonym endpoint = "string \<times> 16 word"

datatype effect =
    Cerr string
  | Ws_set_option_timeout
  | Ws_set_option_decorator
  | Ws_async_accept
  | Ws_async_read
  | Ws_text bool
  | Ws_async_write bool bytes
  | Buffer_consume nat
  | Acceptor_open
  | Acceptor_set_option
  | Acceptor_bind endpoint
  | Acceptor_listen
  | Acceptor_async_accept
  | Make_session
  | Io_context int
  | Thread_start
  | Ioc_run

text \<open>
  \<^verbatim>\<open>void fail(beast::error_code ec, char const *what)\<close>: one line on \<^verbatim>\<open>std::cerr\<close>.
\<close>

definition fail :: "error_code \<Rightarrow> string \<Rightarrow> effect list" where
  "fail ec what = [Cerr (what @ '': '' @ message ec @ [CHR 0x0A])]"

subsection \<open>The session\<close>

text \<open>
  \<^verbatim>\<open>class session\<close>: the stream \<^verbatim>\<open>_ws\<close>, of which the handlers use the type of the latest
  message received (\<^verbatim>\<open>got_text()\<close>) and the type of outgoing messages (\<^verbatim>\<open>text()\<close>), and the
  readable bytes of \<^verbatim>\<open>_buffer\<close>.
\<close>

record session =
  ws_got_text :: bool
  ws_text :: bool
  buffer :: bytes

text \<open>
  \<^verbatim>\<open>explicit session(tcp::socket &&socket)\<close>: a fresh stream (both message types are text
  by the library's default) and an empty buffer.
\<close>

definition session_session :: session where
  "session_session = \<lparr>ws_got_text = True, ws_text = True, buffer = []\<rparr>"

definition session_run :: "session \<Rightarrow> session \<times> effect list" where
  "session_run s = (s, [Ws_set_option_timeout, Ws_set_option_decorator, Ws_async_accept])"

definition session_do_read :: "session \<Rightarrow> session \<times> effect list" where
  "session_do_read s = (s, [Ws_async_read])"

definition session_on_accept :: "error_code \<Rightarrow> session \<Rightarrow> session \<times> effect list" where
  "session_on_accept ec s = (if is_set ec then (s, fail ec ''accept'') else session_do_read s)"

text \<open>
  \<^verbatim>\<open>on_read\<close>: only the closed code returns early. After \<^verbatim>\<open>fail(ec, "read")\<close> control falls
  through to the echo.
\<close>

definition session_on_read :: "error_code \<Rightarrow> nat \<Rightarrow> session \<Rightarrow> session \<times> effect list" where
  "session_on_read ec bytes_transferred s =
     (if ec = Ws_closed then (s, [])
      else
        let log = (if is_set ec then fail ec ''read'' else []);
            s1 = s\<lparr>ws_text := ws_got_text s\<rparr>
        in (s1, log @ [Ws_text (ws_got_text s), Ws_async_write (ws_text s1) (buffer s1)]))"

text \<open>\<^verbatim>\<open>_buffer.consume(n)\<close> removes \<open>n\<close> bytes from the front of the readable bytes.\<close>

definition session_on_write :: "error_code \<Rightarrow> nat \<Rightarrow> session \<Rightarrow> session \<times> effect list" where
  "session_on_write ec bytes_transferred s =
     (if is_set ec then (s, fail ec ''write'')
      else
        let n = length (buffer s);
            s1 = s\<lparr>buffer := drop n (buffer s)\<rparr>;
            (s2, es) = session_do_read s1
        in (s2, Buffer_consume n # es))"

subsection \<open>A session and its outstanding operations\<close>

text \<open>
  The three asynchronous operations of a session, and what the library reports when one
  completes. A read that completes has appended the bytes it received to \<^verbatim>\<open>_buffer\<close> and
  set the stream's \<^verbatim>\<open>got_text()\<close>; then the bound handler runs. The library calls a handler
  once for each operation that was started, so a completion is delivered only for an
  operation that is outstanding.
\<close>

datatype async = Handshake | Read | Write

fun async_of :: "effect \<Rightarrow> async list" where
  "async_of Ws_async_accept = [Handshake]"
| "async_of Ws_async_read = [Read]"
| "async_of (Ws_async_write t b) = [Write]"
| "async_of e = []"

definition started :: "effect list \<Rightarrow> async list" where
  "started es = concat (map async_of es)"

datatype completion =
    Handshake_done error_code
  | Read_done error_code bytes bool
  | Write_done error_code nat

fun op_of :: "completion \<Rightarrow> async" where
  "op_of (Handshake_done ec) = Handshake"
| "op_of (Read_done ec m t) = Read"
| "op_of (Write_done ec n) = Write"

fun handler :: "completion \<Rightarrow> session \<Rightarrow> session \<times> effect list" where
  "handler (Handshake_done ec) s = session_on_accept ec s"
| "handler (Read_done ec m t) s =
     session_on_read ec (length m) (s\<lparr>buffer := buffer s @ m, ws_got_text := t\<rparr>)"
| "handler (Write_done ec n) s = session_on_write ec n s"

text \<open>
  The history of a session lists, in order, each operation started and each completion
  delivered.
\<close>

datatype hevent = Issued async | Completed async

record proc =
  state :: session
  pending :: "async list"
  effects :: "effect list"
  history :: "hevent list"

text \<open>\<^verbatim>\<open>std::make_shared<session>(std::move(socket))->run()\<close>\<close>

definition spawn :: proc where
  "spawn =
     (let (s, es) = session_run session_session
      in \<lparr>state = s, pending = started es, effects = es, history = map Issued (started es)\<rparr>)"

definition deliver :: "completion \<Rightarrow> proc \<Rightarrow> proc option" where
  "deliver c p =
     (if op_of c \<in> set (pending p) then
        let (s, es) = handler c (state p)
        in Some \<lparr>state = s,
                 pending = remove1 (op_of c) (pending p) @ started es,
                 effects = effects p @ es,
                 history = history p @ Completed (op_of c) # map Issued (started es)\<rparr>
      else None)"

fun exec :: "completion list \<Rightarrow> proc \<Rightarrow> proc option" where
  "exec [] p = Some p"
| "exec (c # cs) p = (case deliver c p of None \<Rightarrow> None | Some p' \<Rightarrow> exec cs p')"

text \<open>
  The order of a session's operations as an automaton over its history: a session is
  created, awaits the one operation it has started, or is in the handler of the
  operation that has just completed.
\<close>

datatype phase = Created | Await async | After async

fun next_phase :: "phase \<Rightarrow> hevent \<Rightarrow> phase option" where
  "next_phase Created (Issued Handshake) = Some (Await Handshake)"
| "next_phase (Await a) (Completed b) = (if a = b then Some (After a) else None)"
| "next_phase (After Handshake) (Issued Read) = Some (Await Read)"
| "next_phase (After Read) (Issued Write) = Some (Await Write)"
| "next_phase (After Write) (Issued Read) = Some (Await Read)"
| "next_phase ph e = None"

fun phases :: "phase \<Rightarrow> hevent list \<Rightarrow> phase option" where
  "phases ph [] = Some ph"
| "phases ph (e # es) = (case next_phase ph e of None \<Rightarrow> None | Some ph' \<Rightarrow> phases ph' es)"

fun outstanding :: "phase \<Rightarrow> async list" where
  "outstanding (Await a) = [a]"
| "outstanding ph = []"

subsection \<open>The listener\<close>

text \<open>
  What the environment answers to the calls the program makes on it: the four setup calls
  on the acceptor, \<^verbatim>\<open>net::ip::make_address\<close> (\<open>None\<close> when it throws) and \<^verbatim>\<open>std::atoi\<close>.
\<close>

record env =
  make_address :: "string \<Rightarrow> string option"
  atoi :: "string \<Rightarrow> int"
  open_ec :: error_code
  set_option_ec :: error_code
  bind_ec :: error_code
  listen_ec :: error_code

record acceptor =
  is_open :: bool
  reuse_address :: bool
  is_bound :: bool
  is_listening :: bool

definition acceptor_init :: acceptor where
  "acceptor_init = \<lparr>is_open = False, reuse_address = False, is_bound = False, is_listening = False\<rparr>"

text \<open>\<^verbatim>\<open>listener(net::io_context &ioc, tcp::endpoint endpoint)\<close>\<close>

definition listener_listener :: "env \<Rightarrow> endpoint \<Rightarrow> acceptor \<times> effect list" where
  "listener_listener e endpoint =
     (let a0 = acceptor_init in
      if is_set (open_ec e) then (a0, Acceptor_open # fail (open_ec e) ''open'')
      else
        let a1 = a0\<lparr>is_open := True\<rparr> in
        if is_set (set_option_ec e)
        then (a1, [Acceptor_open, Acceptor_set_option] @ fail (set_option_ec e) ''set_option'')
        else
          let a2 = a1\<lparr>reuse_address := True\<rparr> in
          if is_set (bind_ec e)
          then (a2, [Acceptor_open, Acceptor_set_option, Acceptor_bind endpoint]
                     @ fail (bind_ec e) ''bind'')
          else
            let a3 = a2\<lparr>is_bound := True\<rparr> in
            if is_set (listen_ec e)
            then (a3, [Acceptor_open, Acceptor_set_option, Acceptor_bind endpoint,
                       Acceptor_listen] @ fail (listen_ec e) ''listen'')
            else (a3\<lparr>is_listening := True\<rparr>,
                  [Acceptor_open, Acceptor_set_option, Acceptor_bind endpoint,
                   Acceptor_listen]))"

text \<open>
  The whole program: the listener's acceptor and the number of accepts outstanding on it,
  the sessions in the order of their creation, and everything done so far, each effect
  with the object that did it.
\<close>

datatype origin = Process | Listener | Session nat

record system =
  acceptor :: acceptor
  accepts :: nat
  sessions :: "proc list"
  trace :: "(origin \<times> effect) list"

definition listener_do_accept :: "system \<Rightarrow> system" where
  "listener_do_accept sys =
     sys\<lparr>accepts := Suc (accepts sys), trace := trace sys @ [(Listener, Acceptor_async_accept)]\<rparr>"

definition listener_run :: "system \<Rightarrow> system" where
  "listener_run sys = listener_do_accept sys"

definition listener_on_accept :: "error_code \<Rightarrow> system \<Rightarrow> system" where
  "listener_on_accept ec sys =
     listener_do_accept
       (if is_set ec then sys\<lparr>trace := trace sys @ map (Pair Listener) (fail ec ''accept'')\<rparr>
        else sys\<lparr>sessions := sessions sys @ [spawn],
                 trace := trace sys @ (Listener, Make_session)
                            # map (Pair (Session (length (sessions sys)))) (effects spawn)\<rparr>)"

text \<open>\<^verbatim>\<open>std::make_shared<listener>(ioc, tcp::endpoint{address, port})->run()\<close>\<close>

definition launch :: "env \<Rightarrow> endpoint \<Rightarrow> system" where
  "launch e endpoint =
     (let (a, es) = listener_listener e endpoint
      in listener_run \<lparr>acceptor = a, accepts = 0, sessions = [], trace = map (Pair Listener) es\<rparr>)"

subsection \<open>The event loop and \<^verbatim>\<open>main\<close>\<close>

text \<open>
  \<^verbatim>\<open>ioc.run()\<close> runs the handler of each completion the environment delivers, one handler
  at a time, and returns when no operation is outstanding. The model takes the
  completions delivered so far as a list; a completion of an operation that is not
  outstanding cannot be delivered (\<open>None\<close>).
\<close>

datatype event = Accept_done error_code | Session_done nat completion

fun step :: "event \<Rightarrow> system \<Rightarrow> system option" where
  "step (Accept_done ec) sys =
     (if accepts sys = 0 then None
      else Some (listener_on_accept ec (sys\<lparr>accepts := accepts sys - 1\<rparr>)))"
| "step (Session_done i c) sys =
     (if i < length (sessions sys) then
        (case deliver c (sessions sys ! i) of
           None \<Rightarrow> None
         | Some p \<Rightarrow>
             Some (sys\<lparr>sessions := (sessions sys)[i := p],
                       trace := trace sys
                         @ map (Pair (Session i)) (snd (handler c (state (sessions sys ! i))))\<rparr>))
      else None)"

fun ioc_run :: "event list \<Rightarrow> system \<Rightarrow> system option" where
  "ioc_run [] sys = Some sys"
| "ioc_run (ev # evs) sys = (case step ev sys of None \<Rightarrow> None | Some sys' \<Rightarrow> ioc_run evs sys')"

definition idle :: "system \<Rightarrow> bool" where
  "idle sys = (accepts sys = 0 \<and> list_all (\<lambda>p. pending p = []) (sessions sys))"

definition EXIT_SUCCESS :: int where
  "EXIT_SUCCESS = 0"

definition EXIT_FAILURE :: int where
  "EXIT_FAILURE = 1"

definition usage :: string where
  "usage = ''Usage: websocket-server <address> <port> <threads>'' @ [CHR 0x0A]
           @ ''Example:'' @ [CHR 0x0A]
           @ ''    websocket-server 0.0.0.0 8080 1'' @ [CHR 0x0A]"

text \<open>
  How a run of \<^verbatim>\<open>main\<close> stands after the completions delivered so far: it has returned a
  status, \<^verbatim>\<open>std::terminate\<close> was called (\<^verbatim>\<open>make_address\<close> threw, or the vector of worker
  threads was destroyed with a thread still joinable), or it is inside \<^verbatim>\<open>ioc.run()\<close> with
  an operation outstanding.
\<close>

datatype outcome = Exit int | Terminate | Blocked

definition main :: "env \<Rightarrow> string list \<Rightarrow> event list \<Rightarrow> ((origin \<times> effect) list \<times> outcome) option" where
  "main e argv evs =
     (if int (length argv) \<noteq> 4 then Some ([(Process, Cerr usage)], Exit EXIT_FAILURE)
      else
        case make_address e (argv ! 1) of
          None \<Rightarrow> Some ([], Terminate)
        | Some address \<Rightarrow>
            let port = (word_of_int (atoi e (argv ! 2)) :: 16 word);
                threads = max 1 (atoi e (argv ! 3));
                sys1 = launch e (address, port);
                sys2 = sys1\<lparr>trace := (Process, Io_context threads) # trace sys1
                                 @ replicate (nat (threads - 1)) (Process, Thread_start)
                                 @ [(Process, Ioc_run)]\<rparr>
            in (case ioc_run evs sys2 of
                  None \<Rightarrow> None
                | Some sys3 \<Rightarrow>
                    Some (trace sys3,
                          if idle sys3
                          then (if threads - 1 > 0 then Terminate else Exit EXIT_SUCCESS)
                          else Blocked)))"

subsection \<open>Notions used to state the properties\<close>

text \<open>
  The invariant of a session between two handlers: its history is accepted by the
  automaton, exactly the operation the automaton awaits is outstanding, and the buffer is
  empty unless a read has completed and the write that echoes it has not yet completed
  with success.
\<close>

definition in_order :: "proc \<Rightarrow> bool" where
  "in_order p =
     (case phases Created (history p) of
        None \<Rightarrow> False
      | Some ph \<Rightarrow>
          pending p = outstanding ph
          \<and> (buffer (state p) = [] \<or> ph = After Read \<or> ph = Await Write \<or> ph = After Write))"

text \<open>
  The invariant of the program between two handlers: one accept is outstanding, and
  every session is in order.
\<close>

definition steady :: "system \<Rightarrow> bool" where
  "steady sys = (accepts sys = 1 \<and> list_all in_order (sessions sys))"

text \<open>The lines written to \<^verbatim>\<open>std::cerr\<close> among a list of effects.\<close>

fun cerr_line :: "effect \<Rightarrow> string list" where
  "cerr_line (Cerr l) = [l]"
| "cerr_line e = []"

definition cerr_lines :: "effect list \<Rightarrow> string list" where
  "cerr_lines es = concat (map cerr_line es)"

text \<open>
  The four setup steps of the listener in the order of the constructor: the call, its
  label in the log, and the code the environment answers.
\<close>

definition setup_calls :: "endpoint \<Rightarrow> effect list" where
  "setup_calls endpoint = [Acceptor_open, Acceptor_set_option, Acceptor_bind endpoint, Acceptor_listen]"

definition setup_labels :: "string list" where
  "setup_labels = [''open'', ''set_option'', ''bind'', ''listen'']"

definition setup_codes :: "env \<Rightarrow> error_code list" where
  "setup_codes e = [open_ec e, set_option_ec e, bind_ec e, listen_ec e]"

text \<open>The number of setup steps that succeed before the first one that fails.\<close>

definition steps_passed :: "env \<Rightarrow> nat" where
  "steps_passed e = length (takeWhile (\<lambda>ec. \<not> is_set ec) (setup_codes e))"

text \<open>An answer for \<^verbatim>\<open>std::atoi\<close> on the arguments of the sample runs below.\<close>

definition sample_atoi :: "string \<Rightarrow> int" where
  "sample_atoi a = (if a = ''8080'' then 8080 else if a = ''1'' then 1 else 0)"

section \<open>Auxiliary facts\<close>

lemma started_Nil: "started [] = []"
  by (simp add: started_def)

lemma started_Cons: "started (e # es) = async_of e @ started es"
  by (simp add: started_def)

lemma started_append: "started (xs @ ys) = started xs @ started ys"
  by (simp add: started_def)

lemma started_fail: "started (fail ec what) = []"
  by (simp add: fail_def started_Cons started_Nil)

lemma phases_append:
  "phases ph (xs @ ys) = (case phases ph xs of None \<Rightarrow> None | Some ph' \<Rightarrow> phases ph' ys)"
  by (induction xs arbitrary: ph) (auto split: option.splits)

lemma in_order_spawn: "in_order spawn"
  by (simp add: in_order_def spawn_def session_run_def session_session_def started_Cons started_Nil)

lemma handshake_done_effects:
  "handler (Handshake_done ec) s =
     (s, if is_set ec then fail ec ''accept'' else [Ws_async_read])"
  by (simp add: session_on_accept_def session_do_read_def)

lemma read_done_effects:
  "handler (Read_done ec m t) s =
     (if ec = Ws_closed then (s\<lparr>buffer := buffer s @ m, ws_got_text := t\<rparr>, [])
      else (s\<lparr>buffer := buffer s @ m, ws_got_text := t, ws_text := t\<rparr>,
            (if is_set ec then fail ec ''read'' else [])
              @ [Ws_text t, Ws_async_write t (buffer s @ m)]))"
  by (simp add: session_on_read_def Let_def)

lemma write_done_effects:
  "handler (Write_done ec n) s =
     (if is_set ec then (s, fail ec ''write'')
      else (s\<lparr>buffer := []\<rparr>, [Buffer_consume (length (buffer s)), Ws_async_read]))"
  by (simp add: session_on_write_def session_do_read_def Let_def)

lemma in_order_deliver:
  assumes "in_order p" and "deliver c p = Some p'"
  shows "in_order p'"
proof -
  from assms(1) obtain ph where ph: "phases Created (history p) = Some ph"
    and pend: "pending p = outstanding ph"
    and buf: "buffer (state p) = [] \<or> ph = After Read \<or> ph = Await Write \<or> ph = After Write"
    by (auto simp: in_order_def split: option.splits)
  from assms(2) have mem: "op_of c \<in> set (pending p)"
    by (simp add: deliver_def split: if_splits)
  with pend have aw: "ph = Await (op_of c)"
    by (cases ph) auto
  show ?thesis
  proof (cases c)
    case (Handshake_done ec)
    with assms(2) mem ph pend aw buf show ?thesis
      by (auto simp: deliver_def in_order_def phases_append handshake_done_effects
          started_fail started_Cons started_Nil simp del: handler.simps
          split: if_splits)
  next
    case (Read_done ec m t)
    with assms(2) mem ph pend aw buf show ?thesis
      by (auto simp: deliver_def in_order_def phases_append read_done_effects
          started_fail started_append started_Cons started_Nil simp del: handler.simps
          split: if_splits)
  next
    case (Write_done ec n)
    with assms(2) mem ph pend aw buf show ?thesis
      by (auto simp: deliver_def in_order_def phases_append write_done_effects
          started_fail started_Cons started_Nil simp del: handler.simps
          split: if_splits)
  qed
qed

lemma in_order_exec: "in_order p \<Longrightarrow> exec cs p = Some p' \<Longrightarrow> in_order p'"
  by (induction cs arbitrary: p) (auto split: option.splits dest: in_order_deliver)

lemma outstanding_member: "c \<in> set (outstanding ph) \<Longrightarrow> ph = Await c"
  by (cases ph) auto

lemma in_order_pending:
  "in_order p \<Longrightarrow> c \<in> set (pending p) \<Longrightarrow> pending p = [c]"
  by (auto simp: in_order_def split: option.splits dest: outstanding_member)

lemma in_order_read_buffer:
  "in_order p \<Longrightarrow> Read \<in> set (pending p) \<Longrightarrow> buffer (state p) = []"
  by (auto simp: in_order_def split: option.splits dest: outstanding_member)

lemma deliver_no_pending: "pending p = [] \<Longrightarrow> deliver c p = None"
  by (simp add: deliver_def)

lemma launch_accepts: "accepts (launch e endpoint) = 1"
  by (simp add: launch_def listener_run_def listener_do_accept_def split: prod.splits)

lemma launch_sessions: "sessions (launch e endpoint) = []"
  by (simp add: launch_def listener_run_def listener_do_accept_def split: prod.splits)

lemma launch_trace:
  "trace (launch e endpoint)
     = map (Pair Listener) (snd (listener_listener e endpoint)) @ [(Listener, Acceptor_async_accept)]"
  by (simp add: launch_def listener_run_def listener_do_accept_def split: prod.splits)

lemma on_accept_accepts: "accepts (listener_on_accept ec sys) = Suc (accepts sys)"
  by (simp add: listener_on_accept_def listener_do_accept_def)

lemma on_accept_sessions:
  "sessions (listener_on_accept ec sys) = (if is_set ec then sessions sys else sessions sys @ [spawn])"
  by (simp add: listener_on_accept_def listener_do_accept_def)

lemma on_accept_trace:
  "trace (listener_on_accept ec sys)
     = trace sys
       @ (if is_set ec then map (Pair Listener) (fail ec ''accept'')
          else (Listener, Make_session) # map (Pair (Session (length (sessions sys)))) (effects spawn))
       @ [(Listener, Acceptor_async_accept)]"
  by (simp add: listener_on_accept_def listener_do_accept_def)

lemma steady_launch: "steady (launch e endpoint)"
  by (simp add: steady_def launch_accepts launch_sessions)

lemma steady_trace: "steady (sys\<lparr>trace := t\<rparr>) = steady sys"
  by (simp add: steady_def)

lemma list_all_update: "list_all P xs \<Longrightarrow> P x \<Longrightarrow> list_all P (xs[i := x])"
  by (induction xs arbitrary: i) (auto split: nat.splits)

lemma steady_step:
  assumes "steady sys" and "step ev sys = Some sys'"
  shows "steady sys'"
proof (cases ev)
  case (Accept_done ec)
  with assms show ?thesis
    by (auto simp: steady_def on_accept_accepts on_accept_sessions in_order_spawn)
next
  case (Session_done i c)
  with assms(2) obtain p where i: "i < length (sessions sys)"
    and d: "deliver c (sessions sys ! i) = Some p"
    and s': "sessions sys' = (sessions sys)[i := p]" "accepts sys' = accepts sys"
    by (auto split: if_splits option.splits)
  from assms(1) i have "in_order (sessions sys ! i)"
    by (simp add: steady_def list_all_length)
  then have "in_order p" using d by (rule in_order_deliver)
  with assms(1) s' show ?thesis
    by (simp add: steady_def list_all_update)
qed

lemma steady_ioc_run: "steady sys \<Longrightarrow> ioc_run evs sys = Some sys' \<Longrightarrow> steady sys'"
  by (induction evs arbitrary: sys) (auto split: option.splits dest: steady_step)

lemma step_trace: "step ev sys = Some sys' \<Longrightarrow> \<exists>t. trace sys' = trace sys @ t"
  by (cases ev) (auto simp: on_accept_trace split: if_splits option.splits)

lemma ioc_run_trace: "ioc_run evs sys = Some sys' \<Longrightarrow> \<exists>t. trace sys' = trace sys @ t"
proof (induction evs arbitrary: sys)
  case Nil
  then show ?case by simp
next
  case (Cons ev evs)
  from Cons.prems obtain sys1 where 1: "step ev sys = Some sys1" and 2: "ioc_run evs sys1 = Some sys'"
    by (auto split: option.splits)
  from step_trace[OF 1] Cons.IH[OF 2] show ?case by auto
qed

lemma steady_not_idle: "steady sys \<Longrightarrow> \<not> idle sys"
  by (simp add: steady_def idle_def)

lemma ctor_first_failure:
  assumes "is_set (open_ec e) \<or> is_set (set_option_ec e) \<or> is_set (bind_ec e) \<or> is_set (listen_ec e)"
  shows "snd (listener_listener e endpoint)
           = take (Suc (steps_passed e)) (setup_calls endpoint)
             @ fail (setup_codes e ! steps_passed e) (setup_labels ! steps_passed e)"
  using assms
  by (auto simp: listener_listener_def steps_passed_def setup_codes_def setup_calls_def
      setup_labels_def Let_def)

lemma main_running:
  assumes "length argv = 4" and "make_address e (argv ! 1) = Some address"
    and "main e argv evs = Some (tr, out)"
  shows "out = Blocked
         \<and> (\<exists>rest. tr = (Process, Io_context (max 1 (atoi e (argv ! 3))))
                 # trace (launch e (address, word_of_int (atoi e (argv ! 2)))) @ rest)"
proof -
  let ?sys1 = "launch e (address, word_of_int (atoi e (argv ! 2)))"
  let ?threads = "max 1 (atoi e (argv ! 3))"
  let ?sys2 = "?sys1\<lparr>trace := (Process, Io_context ?threads) # trace ?sys1
                 @ replicate (nat (?threads - 1)) (Process, Thread_start) @ [(Process, Ioc_run)]\<rparr>"
  from assms obtain sys3 where run: "ioc_run evs ?sys2 = Some sys3"
    and tr: "tr = trace sys3"
    and out: "out = (if idle sys3 then (if ?threads - 1 > 0 then Terminate else Exit EXIT_SUCCESS)
                     else Blocked)"
    by (auto simp: main_def Let_def split: option.splits)
  have "steady ?sys2"
    by (simp add: steady_trace steady_launch)
  then have "steady sys3" using run by (rule steady_ioc_run)
  then have "\<not> idle sys3" by (rule steady_not_idle)
  with out have "out = Blocked" by simp
  moreover from ioc_run_trace[OF run] tr
  have "\<exists>rest. tr = (Process, Io_context ?threads) # trace ?sys1 @ rest"
    by auto
  ultimately show ?thesis by simp
qed

lemmas session_defs =
  spawn_def deliver_def session_run_def session_session_def session_on_accept_def
  session_do_read_def session_on_read_def session_on_write_def is_set_def fail_def
  started_def Let_def

lemmas system_defs =
  launch_def listener_listener_def listener_run_def listener_do_accept_def
  listener_on_accept_def acceptor_init_def

section \<open>The properties\<close>

text \<open>
  Claim C1 says that a read that fails with a code other than the closed one is logged and
  ends the session, with no further read or write. The source does log it, but \<^verbatim>\<open>on_read\<close>
  has no \<^verbatim>\<open>return\<close> after \<^verbatim>\<open>fail(ec, "read")\<close>, unlike \<^verbatim>\<open>on_accept\<close> and \<^verbatim>\<open>on_write\<close>. On a
  session whose handshake succeeded and whose first read fails with a connection reset, the
  handler logs the failure and then starts a write of the buffer: a write is outstanding
  afterwards.
\<close>

theorem failed_read_still_echoes:
  "exec [Handshake_done Success, Read_done (Failure ''Connection reset by peer'') [] True] spawn =
     Some \<lparr>state = session_session,
           pending = [Write],
           effects = [Ws_set_option_timeout, Ws_set_option_decorator, Ws_async_accept, Ws_async_read]
                       @ fail (Failure ''Connection reset by peer'') ''read''
                       @ [Ws_text True, Ws_async_write True []],
           history = [Issued Handshake, Completed Handshake, Issued Read, Completed Read,
                      Issued Write]\<rparr>"
  by (simp add: spawn_def deliver_def session_run_def session_session_def session_on_accept_def
      session_do_read_def session_on_read_def is_set_def fail_def started_def Let_def)

text \<open>
  Claim C2 says that after a failed setup step the process never issues an accept and exits
  with a non-zero status. With four arguments and an \<^verbatim>\<open>open\<close> that fails, \<^verbatim>\<open>main\<close> reports the
  failure and then starts an accept all the same; when that accept completes with a failure,
  it is logged and the next accept is started. The process has not exited: it is inside
  \<^verbatim>\<open>ioc.run()\<close>.
\<close>

theorem setup_failure_counterexample:
  "main \<lparr>make_address = Some, atoi = sample_atoi, open_ec = Failure ''Permission denied'',
          set_option_ec = Success, bind_ec = Success, listen_ec = Success\<rparr>
        [''websocket-server'', ''0.0.0.0'', ''8080'', ''1'']
        [Accept_done (Failure ''Bad file descriptor'')]
     = Some ([(Process, Io_context 1),
              (Listener, Acceptor_open),
              (Listener, Cerr (''open: Permission denied'' @ [CHR 0x0A])),
              (Listener, Acceptor_async_accept),
              (Process, Ioc_run),
              (Listener, Cerr (''accept: Bad file descriptor'' @ [CHR 0x0A])),
              (Listener, Acceptor_async_accept)],
             Blocked)"
  by (simp add: main_def sample_atoi_def launch_def listener_listener_def listener_run_def
      listener_do_accept_def listener_on_accept_def acceptor_init_def is_set_def fail_def
      idle_def Let_def)

text \<open>
  Claim C2, as amended. When \<^verbatim>\<open>main\<close> is given four arguments and an address that parses, and
  a setup step of the listener fails, the constructor performs the setup calls up to and
  including the first one that fails, writes one line for it (its label and the code's
  message) and performs no later setup call. \<^verbatim>\<open>main\<close> then calls \<^verbatim>\<open>run()\<close> all the same, which
  starts an accept, and the process does not exit: whatever completions are delivered, it is
  inside \<^verbatim>\<open>ioc.run()\<close> with an operation outstanding.
\<close>

theorem setup_failure_reported_accept_still_issued:
  assumes "length argv = 4"
    and "make_address e (argv ! 1) = Some address"
    and "is_set (open_ec e) \<or> is_set (set_option_ec e) \<or> is_set (bind_ec e) \<or> is_set (listen_ec e)"
    and "main e argv evs = Some (tr, out)"
  shows "out = Blocked
         \<and> snd (listener_listener e (address, word_of_int (atoi e (argv ! 2))))
             = take (Suc (steps_passed e)) (setup_calls (address, word_of_int (atoi e (argv ! 2))))
               @ fail (setup_codes e ! steps_passed e) (setup_labels ! steps_passed e)
         \<and> (\<exists>rest. tr = (Process, Io_context (max 1 (atoi e (argv ! 3))))
                 # map (Pair Listener) (snd (listener_listener e (address, word_of_int (atoi e (argv ! 2)))))
                 @ (Listener, Acceptor_async_accept) # rest)"
  using main_running[OF assms(1,2,4)] ctor_first_failure[OF assms(3)]
  by (simp add: launch_trace)

theorem setup_failure_reported_accept_still_issued_witness:
  "\<exists>tr rest.
     main \<lparr>make_address = Some, atoi = sample_atoi, open_ec = Success,
            set_option_ec = Success, bind_ec = Failure ''Address already in use'',
            listen_ec = Success\<rparr>
          [''websocket-server'', ''0.0.0.0'', ''8080'', ''1'']
          [Accept_done (Failure ''Invalid argument'')] = Some (tr, Blocked)
     \<and> tr = [(Process, Io_context 1), (Listener, Acceptor_open), (Listener, Acceptor_set_option),
             (Listener, Acceptor_bind (''0.0.0.0'', 8080)),
             (Listener, Cerr (''bind: Address already in use'' @ [CHR 0x0A])),
             (Listener, Acceptor_async_accept)] @ rest"
proof -
  let ?e = "\<lparr>make_address = Some, atoi = sample_atoi, open_ec = Success,
            set_option_ec = Success, bind_ec = Failure ''Address already in use'',
            listen_ec = Success\<rparr>"
  let ?argv = "[''websocket-server'', ''0.0.0.0'', ''8080'', ''1'']"
  have l: "length ?argv = 4" by simp
  have a: "make_address ?e (?argv ! 1) = Some ''0.0.0.0''" by simp
  have f: "is_set (open_ec ?e) \<or> is_set (set_option_ec ?e) \<or> is_set (bind_ec ?e) \<or> is_set (listen_ec ?e)"
    by (simp add: is_set_def)
  have "\<exists>tr out. main ?e ?argv [Accept_done (Failure ''Invalid argument'')] = Some (tr, out)"
    by (simp add: main_def sample_atoi_def system_defs session_defs)
  then obtain tr out where m: "main ?e ?argv [Accept_done (Failure ''Invalid argument'')] = Some (tr, out)"
    by blast
  from setup_failure_reported_accept_still_issued[OF l a f m] m show ?thesis
    by (auto simp: sample_atoi_def steps_passed_def setup_codes_def setup_calls_def setup_labels_def
        is_set_def fail_def)
qed

text \<open>
  Claim C3. In every state a session can reach, when its read completes with success, having
  received the message \<open>m\<close> of type \<open>t\<close> (text or binary), the handler sets the type of
  outgoing messages to \<open>t\<close> and starts one write of exactly the bytes \<open>m\<close>, framed as \<open>t\<close>;
  it does nothing else, and that write is the only operation outstanding.
\<close>

theorem echo_preserves_bytes_and_type:
  assumes "exec cs spawn = Some p" and "deliver (Read_done Success m t) p = Some p'"
  shows "effects p' = effects p @ [Ws_text t, Ws_async_write t m] \<and> pending p' = [Write]"
proof -
  have ord: "in_order p"
    using in_order_spawn assms(1) by (rule in_order_exec)
  from assms(2) have mem: "Read \<in> set (pending p)"
    by (simp add: deliver_def split: if_splits)
  from ord mem have pend: "pending p = [Read]" by (rule in_order_pending)
  from ord mem have buf: "buffer (state p) = []" by (rule in_order_read_buffer)
  from assms(2) pend buf show ?thesis
    by (auto simp: deliver_def read_done_effects is_set_def started_Cons started_Nil
        simp del: handler.simps)
qed

theorem echo_preserves_bytes_and_type_witness:
  "\<exists>p p'. exec [Handshake_done Success] spawn = Some p
     \<and> deliver (Read_done Success [0, 0, 0, 0] False) p = Some p'
     \<and> effects p' = effects p @ [Ws_text False, Ws_async_write False [0, 0, 0, 0]]
     \<and> pending p' = [Write]"
proof -
  have "\<exists>p. exec [Handshake_done Success] spawn = Some p
     \<and> (\<exists>p'. deliver (Read_done Success [0, 0, 0, 0] False) p = Some p')"
    by (simp add: session_defs)
  then obtain p p' where e: "exec [Handshake_done Success] spawn = Some p"
    and d: "deliver (Read_done Success [0, 0, 0, 0] False) p = Some p'"
    by blast
  from echo_preserves_bytes_and_type[OF e d] e d show ?thesis by blast
qed

text \<open>
  Claim C4. In every state a session can reach, when its read completes with the closed code,
  the handler performs no effect at all: nothing is written to \<^verbatim>\<open>std::cerr\<close> and no operation
  is started. No operation is outstanding afterwards, so no handler of this session runs
  again.
\<close>

theorem read_closed_is_silent:
  assumes "exec cs spawn = Some p" and "deliver (Read_done Ws_closed m t) p = Some p'"
  shows "effects p' = effects p \<and> pending p' = [] \<and> (\<forall>c. deliver c p' = None)"
proof -
  have ord: "in_order p"
    using in_order_spawn assms(1) by (rule in_order_exec)
  from assms(2) have mem: "Read \<in> set (pending p)"
    by (simp add: deliver_def split: if_splits)
  from ord mem have pend: "pending p = [Read]" by (rule in_order_pending)
  from assms(2) pend have "effects p' = effects p \<and> pending p' = []"
    by (auto simp: deliver_def read_done_effects started_Nil simp del: handler.simps)
  then show ?thesis by (simp add: deliver_no_pending)
qed

theorem read_closed_is_silent_witness:
  "\<exists>p p'. exec [Handshake_done Success] spawn = Some p
     \<and> deliver (Read_done Ws_closed [] True) p = Some p'
     \<and> effects p' = effects p \<and> pending p' = [] \<and> (\<forall>c. deliver c p' = None)"
proof -
  have "\<exists>p. exec [Handshake_done Success] spawn = Some p
     \<and> (\<exists>p'. deliver (Read_done Ws_closed [] True) p = Some p')"
    by (simp add: session_defs)
  then obtain p p' where e: "exec [Handshake_done Success] spawn = Some p"
    and d: "deliver (Read_done Ws_closed [] True) p = Some p'"
    by blast
  from read_closed_is_silent[OF e d] e d show ?thesis by blast
qed

text \<open>
  Claim C5. In every state a session can reach, its history is accepted by the automaton
  \<open>next_phase\<close>: the handshake is started first; a completion is delivered only for the
  operation awaited; the first read is started only after the handshake has completed, a
  write only after a read has completed, and a further read only after a write has
  completed. The operations outstanding are exactly the one awaited, so there is at most one
  at any time, and never two reads or two writes.
\<close>

theorem session_operations_sequential:
  assumes "exec cs spawn = Some p"
  shows "(\<exists>ph. phases Created (history p) = Some ph \<and> pending p = outstanding ph)
         \<and> length (pending p) \<le> 1"
proof -
  have "in_order p"
    using in_order_spawn assms by (rule in_order_exec)
  then obtain ph where ph: "phases Created (history p) = Some ph" "pending p = outstanding ph"
    by (auto simp: in_order_def split: option.splits)
  moreover have "length (outstanding ph) \<le> 1"
    by (cases ph) simp_all
  ultimately show ?thesis by simp
qed

theorem session_operations_sequential_witness:
  "\<exists>p. exec [Handshake_done Success, Read_done Success [1, 2] False, Write_done Success 2] spawn
          = Some p
       \<and> history p = [Issued Handshake, Completed Handshake, Issued Read, Completed Read,
                       Issued Write, Completed Write, Issued Read]
       \<and> (\<exists>ph. phases Created (history p) = Some ph \<and> pending p = outstanding ph)
       \<and> length (pending p) \<le> 1"
proof -
  have "\<exists>p. exec [Handshake_done Success, Read_done Success [1, 2] False, Write_done Success 2] spawn
          = Some p
       \<and> history p = [Issued Handshake, Completed Handshake, Issued Read, Completed Read,
                       Issued Write, Completed Write, Issued Read]"
    by (simp add: session_defs)
  then obtain p where e: "exec [Handshake_done Success, Read_done Success [1, 2] False, Write_done Success 2] spawn = Some p"
    and h: "history p = [Issued Handshake, Completed Handshake, Issued Read, Completed Read,
                       Issued Write, Completed Write, Issued Read]"
    by blast
  from session_operations_sequential[OF e] e h show ?thesis by blast
qed

text \<open>
  Claim C6. In every state the program can reach from \<^verbatim>\<open>run()\<close> on, between two handlers,
  exactly one accept is outstanding. Its completion can be delivered with any code \<open>ec\<close>;
  the handler then logs the failure with the label \<^verbatim>\<open>accept\<close> when \<open>ec\<close> is set, and otherwise
  creates a session and runs it (the session starts its handshake); in both cases the last
  thing it does is to start the next accept, and one accept is outstanding again.
\<close>

theorem one_accept_always_outstanding:
  assumes "ioc_run evs (launch e endpoint) = Some sys"
  shows "accepts sys = 1
         \<and> (\<exists>sys'. step (Accept_done ec) sys = Some sys' \<and> accepts sys' = 1
               \<and> sessions sys' = (if is_set ec then sessions sys else sessions sys @ [spawn])
               \<and> trace sys' = trace sys
                   @ (if is_set ec then map (Pair Listener) (fail ec ''accept'')
                      else (Listener, Make_session)
                             # map (Pair (Session (length (sessions sys)))) (effects spawn))
                   @ [(Listener, Acceptor_async_accept)])"
proof -
  have "steady sys"
    using steady_launch assms by (rule steady_ioc_run)
  then have a: "accepts sys = 1" by (simp add: steady_def)
  then show ?thesis
    by (simp add: on_accept_accepts on_accept_sessions on_accept_trace)
qed

theorem one_accept_always_outstanding_witness:
  "\<exists>sys. ioc_run [Accept_done Success, Session_done 0 (Handshake_done Success),
                  Accept_done (Failure ''Too many open files'')]
            (launch \<lparr>make_address = Some, atoi = sample_atoi, open_ec = Success,
                     set_option_ec = Success, bind_ec = Success, listen_ec = Success\<rparr>
                    (''0.0.0.0'', 8080)) = Some sys
     \<and> accepts sys = 1
     \<and> (\<exists>sys'. step (Accept_done Success) sys = Some sys' \<and> accepts sys' = 1
           \<and> sessions sys' = sessions sys @ [spawn]
           \<and> trace sys' = trace sys
               @ (Listener, Make_session) # map (Pair (Session (length (sessions sys)))) (effects spawn)
               @ [(Listener, Acceptor_async_accept)])"
proof -
  have "\<exists>sys. ioc_run [Accept_done Success, Session_done 0 (Handshake_done Success),
                  Accept_done (Failure ''Too many open files'')]
            (launch \<lparr>make_address = Some, atoi = sample_atoi, open_ec = Success,
                     set_option_ec = Success, bind_ec = Success, listen_ec = Success\<rparr>
                    (''0.0.0.0'', 8080)) = Some sys"
    by (simp add: system_defs session_defs)
  then obtain sys where r: "ioc_run [Accept_done Success, Session_done 0 (Handshake_done Success),
                  Accept_done (Failure ''Too many open files'')]
            (launch \<lparr>make_address = Some, atoi = sample_atoi, open_ec = Success,
                     set_option_ec = Success, bind_ec = Success, listen_ec = Success\<rparr>
                    (''0.0.0.0'', 8080)) = Some sys"
    by blast
  from one_accept_always_outstanding[OF r, of Success] r show ?thesis
    by (auto simp: is_set_def)
qed

text \<open>
  Claim C7. In every state the program can reach, when the handshake of session \<open>i\<close>
  completes with a code that is set, the only effect is the line logged with the label
  \<^verbatim>\<open>accept\<close>: no read and no write is started. Session \<open>i\<close> has no operation outstanding
  afterwards, so no completion can be delivered to it again. The acceptor, the number of
  accepts outstanding and every other session are unchanged.
\<close>

theorem failed_handshake_closes_only_that_session:
  assumes "ioc_run evs (launch e endpoint) = Some sys"
    and "is_set ec"
    and "step (Session_done i (Handshake_done ec)) sys = Some sys'"
  shows "trace sys' = trace sys @ map (Pair (Session i)) (fail ec ''accept'')
         \<and> (\<exists>q. sessions sys' = (sessions sys)[i := q] \<and> pending q = []
                \<and> state q = state (sessions sys ! i))
         \<and> (\<forall>c. step (Session_done i c) sys' = None)
         \<and> acceptor sys' = acceptor sys \<and> accepts sys' = accepts sys"
proof -
  have st: "steady sys"
    using steady_launch assms(1) by (rule steady_ioc_run)
  from assms(3) obtain q where i: "i < length (sessions sys)"
    and d: "deliver (Handshake_done ec) (sessions sys ! i) = Some q"
    and s': "sys' = sys\<lparr>sessions := (sessions sys)[i := q],
               trace := trace sys @ map (Pair (Session i))
                 (snd (handler (Handshake_done ec) (state (sessions sys ! i))))\<rparr>"
    by (auto split: if_splits option.splits)
  from st i have ord: "in_order (sessions sys ! i)"
    by (simp add: steady_def list_all_length)
  from d have mem: "Handshake \<in> set (pending (sessions sys ! i))"
    by (simp add: deliver_def split: if_splits)
  from ord mem have pend: "pending (sessions sys ! i) = [Handshake]" by (rule in_order_pending)
  from d pend assms(2) have q: "pending q = []" "state q = state (sessions sys ! i)"
    by (auto simp: deliver_def handshake_done_effects started_fail simp del: handler.simps)
  from assms(2) have h: "snd (handler (Handshake_done ec) (state (sessions sys ! i))) = fail ec ''accept''"
    by (simp add: handshake_done_effects del: handler.simps)
  from q(1) i s' have "\<forall>c. step (Session_done i c) sys' = None"
    by (simp add: deliver_no_pending)
  with s' q h show ?thesis by auto
qed

theorem failed_handshake_closes_only_that_session_witness:
  "\<exists>sys sys'. ioc_run [Accept_done Success, Accept_done Success]
            (launch \<lparr>make_address = Some, atoi = sample_atoi, open_ec = Success,
                     set_option_ec = Success, bind_ec = Success, listen_ec = Success\<rparr>
                    (''0.0.0.0'', 8080)) = Some sys
     \<and> is_set (Failure ''bad method'')
     \<and> step (Session_done 0 (Handshake_done (Failure ''bad method''))) sys = Some sys'
     \<and> trace sys' = trace sys @ [(Session 0, Cerr (''accept: bad method'' @ [CHR 0x0A]))]
     \<and> (\<exists>q. sessions sys' = (sessions sys)[0 := q] \<and> pending q = []
            \<and> state q = state (sessions sys ! 0))
     \<and> (\<forall>c. step (Session_done 0 c) sys' = None)
     \<and> acceptor sys' = acceptor sys \<and> accepts sys' = accepts sys"
proof -
  have s: "is_set (Failure ''bad method'')" by (simp add: is_set_def)
  have "\<exists>sys. ioc_run [Accept_done Success, Accept_done Success]
            (launch \<lparr>make_address = Some, atoi = sample_atoi, open_ec = Success,
                     set_option_ec = Success, bind_ec = Success, listen_ec = Success\<rparr>
                    (''0.0.0.0'', 8080)) = Some sys
     \<and> (\<exists>sys'. step (Session_done 0 (Handshake_done (Failure ''bad method''))) sys = Some sys')"
    by (simp add: system_defs session_defs)
  then obtain sys sys' where r: "ioc_run [Accept_done Success, Accept_done Success]
            (launch \<lparr>make_address = Some, atoi = sample_atoi, open_ec = Success,
                     set_option_ec = Success, bind_ec = Success, listen_ec = Success\<rparr>
                    (''0.0.0.0'', 8080)) = Some sys"
    and t: "step (Session_done 0 (Handshake_done (Failure ''bad method''))) sys = Some sys'"
    by blast
  from failed_handshake_closes_only_that_session[OF r s t] r s t show ?thesis
    by (auto simp: fail_def)
qed

text \<open>
  Claim C8. In every state a session can reach, when its write completes with success, the
  handler first consumes as many bytes as the buffer holds, which leaves the buffer empty,
  and then starts the next read, which is the only operation outstanding. When that read
  completes with success with a message \<open>m\<close> of type \<open>t\<close>, the write that echoes it carries
  exactly the bytes \<open>m\<close>.
\<close>

theorem write_success_clears_buffer_then_reads:
  assumes "exec cs spawn = Some p" and "deliver (Write_done Success n) p = Some p'"
  shows "effects p' = effects p @ [Buffer_consume (length (buffer (state p))), Ws_async_read]
         \<and> buffer (state p') = [] \<and> pending p' = [Read]
         \<and> (\<exists>p''. deliver (Read_done Success m t) p' = Some p''
                \<and> effects p'' = effects p' @ [Ws_text t, Ws_async_write t m])"
proof -
  have ord: "in_order p"
    using in_order_spawn assms(1) by (rule in_order_exec)
  from assms(2) have mem: "Write \<in> set (pending p)"
    by (simp add: deliver_def split: if_splits)
  from ord mem have pend: "pending p = [Write]" by (rule in_order_pending)
  from assms(2) pend have 1: "effects p' = effects p @ [Buffer_consume (length (buffer (state p))), Ws_async_read]"
    and 2: "buffer (state p') = []" and 3: "pending p' = [Read]"
    by (auto simp: deliver_def write_done_effects is_set_def started_Cons started_Nil
        simp del: handler.simps)
  from 2 3 have "\<exists>p''. deliver (Read_done Success m t) p' = Some p''
      \<and> effects p'' = effects p' @ [Ws_text t, Ws_async_write t m]"
    by (simp add: deliver_def read_done_effects is_set_def del: handler.simps)
  with 1 2 3 show ?thesis by simp
qed

theorem write_success_clears_buffer_then_reads_witness:
  "\<exists>p p'. exec [Handshake_done Success, Read_done Success [1, 2] False] spawn = Some p
     \<and> deliver (Write_done Success 2) p = Some p'
     \<and> effects p' = effects p @ [Buffer_consume (length (buffer (state p))), Ws_async_read]
     \<and> buffer (state p') = [] \<and> pending p' = [Read]
     \<and> (\<exists>p''. deliver (Read_done Success [3] True) p' = Some p''
            \<and> effects p'' = effects p' @ [Ws_text True, Ws_async_write True [3]])"
proof -
  have "\<exists>p. exec [Handshake_done Success, Read_done Success [1, 2] False] spawn = Some p
     \<and> (\<exists>p'. deliver (Write_done Success 2) p = Some p')"
    by (simp add: session_defs)
  then obtain p p' where e: "exec [Handshake_done Success, Read_done Success [1, 2] False] spawn = Some p"
    and d: "deliver (Write_done Success 2) p = Some p'"
    by blast
  from write_success_clears_buffer_then_reads[OF e d, of "[3]" True] e d show ?thesis by blast
qed

text \<open>
  Claim C9. When the number of command-line arguments (\<^verbatim>\<open>argc - 1\<close>) is not three, \<^verbatim>\<open>main\<close>
  writes the usage message and returns \<^verbatim>\<open>EXIT_FAILURE\<close>, whatever the environment answers.
  The usage message is all it does: no io_context or listener is created, no call is made
  on an acceptor and no thread is started.
\<close>

theorem wrong_argument_count_prints_usage:
  assumes "int (length argv) - 1 \<noteq> 3"
  shows "main e argv evs = Some ([(Process, Cerr usage)], Exit EXIT_FAILURE)"
  using assms by (simp add: main_def)

theorem wrong_argument_count_prints_usage_witness:
  "int (length [''websocket-server'', ''0.0.0.0'', ''8080'']) - 1 \<noteq> 3
   \<and> main \<lparr>make_address = Some, atoi = sample_atoi, open_ec = Success,
            set_option_ec = Success, bind_ec = Success, listen_ec = Success\<rparr>
          [''websocket-server'', ''0.0.0.0'', ''8080''] []
       = Some ([(Process, Cerr usage)], Exit EXIT_FAILURE)"
proof -
  have n: "int (length [''websocket-server'', ''0.0.0.0'', ''8080'']) - 1 \<noteq> 3" by simp
  from wrong_argument_count_prints_usage[OF n] n show ?thesis by simp
qed

text \<open>
  Claim C10. For a code that is set, the handler of a session's handshake and the handler of
  the listener's accept both report it through \<open>fail\<close> with the label \<^verbatim>\<open>accept\<close>: the lines
  they write to \<^verbatim>\<open>std::cerr\<close> are the same.
\<close>

theorem handshake_and_accept_failures_share_label:
  assumes "is_set ec"
  shows "snd (session_on_accept ec s) = fail ec ''accept''
         \<and> trace (listener_on_accept ec sys)
             = trace sys @ map (Pair Listener) (fail ec ''accept'') @ [(Listener, Acceptor_async_accept)]
         \<and> cerr_lines (snd (session_on_accept ec s))
             = cerr_lines (map snd (drop (length (trace sys)) (trace (listener_on_accept ec sys))))"
  using assms
  by (simp add: session_on_accept_def listener_on_accept_def listener_do_accept_def fail_def
      cerr_lines_def)

theorem handshake_and_accept_failures_share_label_witness:
  "is_set (Failure ''Too many open files'')
   \<and> snd (session_on_accept (Failure ''Too many open files'') session_session)
       = [Cerr (''accept: Too many open files'' @ [CHR 0x0A])]
   \<and> trace (listener_on_accept (Failure ''Too many open files'')
              \<lparr>acceptor = acceptor_init, accepts = 0, sessions = [], trace = []\<rparr>)
       = [(Listener, Cerr (''accept: Too many open files'' @ [CHR 0x0A])),
          (Listener, Acceptor_async_accept)]"
proof -
  have s: "is_set (Failure ''Too many open files'')" by (simp add: is_set_def)
  from handshake_and_accept_failures_share_label[OF s, of session_session
      "\<lparr>acceptor = acceptor_init, accepts = 0, sessions = [], trace = []\<rparr>"] s
  show ?thesis by (simp add: fail_def)
qed

end
